theory Spec2Isabelle
  imports Complex_Main "HOL-Library.Word" "HOL-Library.Code_Target_Numeral"
begin

section \<open>The InterviewCoach component\<close>

text \<open>
  A shallow embedding of \<^verbatim>\<open>src/frontend/src/components/InterviewCoach.tsx\<close>.
  The component is event driven: every handler runs to completion, and the two
  \<^verbatim>\<open>async\<close> functions are suspended at their \<^verbatim>\<open>await\<close>. Each handler is
  a function on a record that holds the React state, the two refs and the part of the
  browser the handlers talk to (recorder objects, timers, requests, alerts, console).
  An \<^verbatim>\<open>async\<close> function is split at its \<^verbatim>\<open>await\<close>: the part that runs at
  the call, and the part that runs when the promise settles.

  What is assumed of the environment:
  \<^item> the component is rendered again before the next event is handled, so the button
    carries the handler that belongs to the current \<open>isRecording\<close>;
  \<^item> the promises of \<^verbatim>\<open>getUserMedia\<close> settle in the order of the calls;
  \<^item> \<^verbatim>\<open>new MediaRecorder\<close> and \<^verbatim>\<open>start()\<close> do not throw on a stream that
    \<^verbatim>\<open>getUserMedia\<close> has just returned;
  \<^item> the browser decides when a recorder delivers data and how much;
  \<^item> a timeout runs at its deadline.
\<close>

subsection \<open>Data model\<close>

type_synonym byte = "8 word"

text \<open>A \<^verbatim>\<open>Blob\<close> is modelled by its byte content.\<close>

type_synonym blob = "byte list"

text \<open>
  A \<^verbatim>\<open>number\<close> is a double: a finite one is given by its exact value, a rational
  (every finite double is one), and the others are the two infinities and NaN.
\<close>

datatype number = Finite rat | PosInfinity | NegInfinity | NaN

record AnalysisResult =
  total_words :: number
  filler_words :: number
  filler_ratio :: number

text \<open>
  The field \<^verbatim>\<open>score\<close> of \<^verbatim>\<open>ScoreResult\<close> is named \<open>score_number\<close> here,
  since \<^verbatim>\<open>ProcessedResult\<close> has a field of the same name.
\<close>

record ScoreResult =
  score_number :: number
  matched_keywords :: "string list"

record ProcessedResult =
  success :: bool
  transcription :: string
  analysis :: AnalysisResult
  score :: "ScoreResult option"
  feedback :: "string list"

text \<open>The browser's objects.\<close>

datatype RecordingState = inactive | recording | paused

datatype track_state = live | ended

type_synonym MediaStream = "track_state list"

text \<open>
  A \<^verbatim>\<open>MediaRecorder\<close>: its \<^verbatim>\<open>state\<close> and \<^verbatim>\<open>stream\<close>, whether its
  \<^verbatim>\<open>stop()\<close> has queued the task that fires \<^verbatim>\<open>dataavailable\<close> and
  \<^verbatim>\<open>stop\<close>, and the \<^verbatim>\<open>jobDescription\<close> that its \<^verbatim>\<open>stop\<close> listener
  closes over (the listener calls the \<^verbatim>\<open>sendAudioToServer\<close> of the render in
  which \<^verbatim>\<open>startRecording\<close> was called).
\<close>

record MediaRecorder =
  state :: RecordingState
  stream :: MediaStream
  stop_queued :: bool
  listener_jobDescription :: string

record FormData =
  audio :: blob
  job_description :: string

datatype js_error = NotAllowedError | NotFoundError | TypeError | SyntaxError

text \<open>
  The component and its environment. \<open>mediaRecorderRef\<close> refers to a recorder by its
  index in \<open>recorders\<close>, the store of all recorder objects created so far: a recorder
  that the ref no longer points to still exists and still has its listeners.
  \<open>pending_starts\<close> holds the suspended calls of \<^verbatim>\<open>startRecording\<close> (each with the
  \<^verbatim>\<open>jobDescription\<close> of its render), \<open>in_flight\<close> counts the suspended calls of
  \<^verbatim>\<open>sendAudioToServer\<close>, \<open>timers\<close> holds the deadlines (in milliseconds) of the
  armed timeouts and \<open>now\<close> is the clock.
\<close>

record world =
  isRecording :: bool
  jobDescription :: string
  loading :: bool
  result :: "ProcessedResult option"
  mediaRecorderRef :: "nat option"
  chunksRef :: "blob list"
  recorders :: "MediaRecorder list"
  pending_starts :: "string list"
  in_flight :: nat
  requests :: "FormData list"
  timers :: "nat list"
  now :: nat
  alerts :: "string list"
  console :: "(string \<times> js_error) list"

text \<open>The state of a freshly mounted component.\<close>

definition init :: world where
  "init = \<lparr> isRecording = False, jobDescription = [], loading = False, result = None,
            mediaRecorderRef = None, chunksRef = [], recorders = [], pending_starts = [],
            in_flight = 0, requests = [], timers = [], now = 0, alerts = [], console = [] \<rparr>"

subsection \<open>Browser operations\<close>

text \<open>\<^verbatim>\<open>new Blob(parts)\<close> concatenates the parts in order.\<close>

definition Blob :: "blob list \<Rightarrow> blob" where
  "Blob parts = concat parts"

text \<open>\<^verbatim>\<open>new MediaRecorder(stream)\<close> followed by the two \<^verbatim>\<open>addEventListener\<close>.\<close>

definition new_MediaRecorder :: "MediaStream \<Rightarrow> string \<Rightarrow> MediaRecorder" where
  "new_MediaRecorder s jd =
     \<lparr> state = inactive, stream = s, stop_queued = False, listener_jobDescription = jd \<rparr>"

definition recorder_start :: "MediaRecorder \<Rightarrow> MediaRecorder" where
  "recorder_start r = r\<lparr> state := recording \<rparr>"

text \<open>
  \<^verbatim>\<open>MediaRecorder.stop()\<close> sets the state to inactive at once and queues a task
  that fires \<^verbatim>\<open>dataavailable\<close> and then \<^verbatim>\<open>stop\<close>.
\<close>

definition recorder_stop :: "MediaRecorder \<Rightarrow> MediaRecorder" where
  "recorder_stop r = r\<lparr> state := inactive, stop_queued := True \<rparr>"

text \<open>\<^verbatim>\<open>stream.getTracks().forEach(track => track.stop())\<close>\<close>

definition stop_tracks :: "MediaRecorder \<Rightarrow> MediaRecorder" where
  "stop_tracks r = r\<lparr> stream := map (\<lambda>_. ended) (stream r) \<rparr>"

text \<open>\<^verbatim>\<open>mediaRecorderRef.current?.state === 'recording'\<close>\<close>

definition current_is_recording :: "world \<Rightarrow> bool" where
  "current_is_recording w =
     (case mediaRecorderRef w of
        None \<Rightarrow> False
      | Some rid \<Rightarrow> rid < length (recorders w) \<and> state (recorders w ! rid) = recording)"

subsection \<open>The handlers\<close>

definition stopRecording :: "world \<Rightarrow> world" where
  "stopRecording w =
     (case mediaRecorderRef w of
        None \<Rightarrow> w
      | Some rid \<Rightarrow>
          if rid < length (recorders w) \<and> state (recorders w ! rid) = recording then
            (let r1 = recorder_stop (recorders w ! rid);
                 r2 = stop_tracks r1
             in w\<lparr> recorders := (recorders w)[rid := r2], isRecording := False \<rparr>)
          else w)"

text \<open>
  \<^verbatim>\<open>sendAudioToServer\<close> up to its \<^verbatim>\<open>await fetch(...)\<close>; \<open>jd\<close> is the
  \<^verbatim>\<open>jobDescription\<close> of the closure.
\<close>

definition sendAudioToServer_call :: "string \<Rightarrow> blob \<Rightarrow> world \<Rightarrow> world" where
  "sendAudioToServer_call jd audioBlob w =
     (let w1 = w\<lparr> loading := True \<rparr>;
          formData = \<lparr> audio = audioBlob, job_description = jd \<rparr>
      in w1\<lparr> requests := requests w1 @ [formData], in_flight := Suc (in_flight w1) \<rparr>)"

text \<open>
  How the request ends: \<^verbatim>\<open>fetch\<close> rejects (there is no response); or there is a
  response with an HTTP status, and \<^verbatim>\<open>response.json()\<close> either rejects (the body
  is not JSON) or resolves to \<^verbatim>\<open>data\<close>. The component's state has the type
  \<^verbatim>\<open>ProcessedResult | null\<close>, and \<^verbatim>\<open>data\<close> is stored without any check, so
  \<^verbatim>\<open>data\<close> is modelled at that type (\<open>None\<close> is the JSON value \<^verbatim>\<open>null\<close>).
\<close>

datatype fetch_outcome =
    fetch_rejected
  | json_rejected nat
  | json_resolved nat "ProcessedResult option"

definition catch_upload :: "js_error \<Rightarrow> world \<Rightarrow> world" where
  "catch_upload err w =
     w\<lparr> console := console w @ [(''Error sending audio to server:'', err)],
        alerts := alerts w @ [''Error processing audio. Please try again.''] \<rparr>"

text \<open>The rest of \<^verbatim>\<open>sendAudioToServer\<close>: \<^verbatim>\<open>try\<close>, \<^verbatim>\<open>catch\<close>, \<^verbatim>\<open>finally\<close>.\<close>

definition sendAudioToServer_resume :: "fetch_outcome \<Rightarrow> world \<Rightarrow> world" where
  "sendAudioToServer_resume outcome w =
     (let w1 = (case outcome of
                  fetch_rejected \<Rightarrow> catch_upload TypeError w
                | json_rejected status \<Rightarrow> catch_upload SyntaxError w
                | json_resolved status data \<Rightarrow> w\<lparr> result := data \<rparr>)
      in w1\<lparr> loading := False \<rparr>)"

text \<open>The \<^verbatim>\<open>dataavailable\<close> and \<^verbatim>\<open>stop\<close> listeners of a recorder.\<close>

definition on_dataavailable :: "blob \<Rightarrow> world \<Rightarrow> world" where
  "on_dataavailable data w = w\<lparr> chunksRef := chunksRef w @ [data] \<rparr>"

definition on_stop :: "string \<Rightarrow> world \<Rightarrow> world" where
  "on_stop jd w = (let audioBlob = Blob (chunksRef w) in sendAudioToServer_call jd audioBlob w)"

text \<open>The callback of the timeout.\<close>

definition timeout_callback :: "world \<Rightarrow> world" where
  "timeout_callback w = (if current_is_recording w then stopRecording w else w)"

definition setTimeout :: "nat \<Rightarrow> world \<Rightarrow> world" where
  "setTimeout delay w = w\<lparr> timers := timers w @ [now w + delay] \<rparr>"

text \<open>
  \<^verbatim>\<open>startRecording\<close> up to \<^verbatim>\<open>await getUserMedia(...)\<close>: the call is suspended
  with the \<^verbatim>\<open>jobDescription\<close> of its render.
\<close>

definition startRecording_call :: "world \<Rightarrow> world" where
  "startRecording_call w = w\<lparr> pending_starts := pending_starts w @ [jobDescription w] \<rparr>"

text \<open>The rest of the \<^verbatim>\<open>try\<close> block, run when \<^verbatim>\<open>getUserMedia\<close> resolves.\<close>

definition startRecording_granted :: "MediaStream \<Rightarrow> string \<Rightarrow> world \<Rightarrow> world" where
  "startRecording_granted s jd w =
     (let rid = length (recorders w);
          w1 = w\<lparr> recorders := recorders w @ [new_MediaRecorder s jd],
                  mediaRecorderRef := Some rid \<rparr>;
          w2 = w1\<lparr> chunksRef := [] \<rparr>;
          w3 = w2\<lparr> recorders := (recorders w2)[rid := recorder_start (recorders w2 ! rid)] \<rparr>;
          w4 = w3\<lparr> isRecording := True \<rparr>
      in setTimeout 30000 w4)"

text \<open>The \<^verbatim>\<open>catch\<close> block, run when \<^verbatim>\<open>getUserMedia\<close> rejects.\<close>

definition startRecording_rejected :: "js_error \<Rightarrow> world \<Rightarrow> world" where
  "startRecording_rejected err w =
     w\<lparr> console := console w @ [(''Error accessing microphone:'', err)],
        alerts := alerts w @
          [''Error accessing microphone. Please ensure you have granted microphone permissions.''] \<rparr>"

subsection \<open>Events\<close>

text \<open>The \<^verbatim>\<open>onClick\<close> of the button, as rendered.\<close>

datatype handler = call_startRecording | call_stopRecording

definition button_onClick :: "world \<Rightarrow> handler" where
  "button_onClick w = (if isRecording w then call_stopRecording else call_startRecording)"

datatype event =
    ClickButton
  | EditJobDescription string
  | MicGranted MediaStream
  | MicRejected js_error
  | DataAvailable nat blob
  | StopEvent nat
  | Wait nat
  | FetchDone fetch_outcome

text \<open>
  A recorder delivers data while it records and until the task queued by its
  \<^verbatim>\<open>stop()\<close> has run.
\<close>

definition delivering :: "world \<Rightarrow> nat \<Rightarrow> bool" where
  "delivering w rid =
     (rid < length (recorders w) \<and>
      (state (recorders w ! rid) = recording \<or> stop_queued (recorders w ! rid)))"

definition stop_pending :: "world \<Rightarrow> nat \<Rightarrow> bool" where
  "stop_pending w rid = (rid < length (recorders w) \<and> stop_queued (recorders w ! rid))"

text \<open>
  \<open>Wait d\<close> lets \<open>d\<close> milliseconds pass: the timeouts that fall due run, in the order
  in which they were armed.
\<close>

definition advance :: "nat \<Rightarrow> world \<Rightarrow> world" where
  "advance d w =
     (let t = now w + d;
          due = filter (\<lambda>x. x \<le> t) (timers w);
          w1 = w\<lparr> timers := filter (\<lambda>x. \<not> x \<le> t) (timers w), now := t \<rparr>
      in fold (\<lambda>_. timeout_callback) due w1)"

text \<open>An event that the environment cannot produce in a state changes nothing.\<close>

fun step :: "event \<Rightarrow> world \<Rightarrow> world" where
  "step ClickButton w =
     (case button_onClick w of
        call_startRecording \<Rightarrow> startRecording_call w
      | call_stopRecording \<Rightarrow> stopRecording w)"
| "step (EditJobDescription text) w = w\<lparr> jobDescription := text \<rparr>"
| "step (MicGranted s) w =
     (case pending_starts w of
        [] \<Rightarrow> w
      | jd # rest \<Rightarrow> startRecording_granted s jd (w\<lparr> pending_starts := rest \<rparr>))"
| "step (MicRejected err) w =
     (case pending_starts w of
        [] \<Rightarrow> w
      | jd # rest \<Rightarrow> startRecording_rejected err (w\<lparr> pending_starts := rest \<rparr>))"
| "step (DataAvailable rid data) w =
     (if delivering w rid then on_dataavailable data w else w)"
| "step (StopEvent rid) w =
     (if stop_pending w rid then
        (let r = recorders w ! rid;
             w1 = w\<lparr> recorders := (recorders w)[rid := r\<lparr> stop_queued := False \<rparr>] \<rparr>
         in on_stop (listener_jobDescription r) w1)
      else w)"
| "step (Wait d) w = advance d w"
| "step (FetchDone outcome) w =
     (if in_flight w = 0 then w
      else sendAudioToServer_resume outcome (w\<lparr> in_flight := in_flight w - 1 \<rparr>))"

definition run :: "event list \<Rightarrow> world \<Rightarrow> world" where
  "run es w = fold step es w"

text \<open>Whether the environment can produce the event in the state.\<close>

fun enabled :: "event \<Rightarrow> world \<Rightarrow> bool" where
  "enabled ClickButton w = True"
| "enabled (EditJobDescription text) w = True"
| "enabled (MicGranted s) w = (pending_starts w \<noteq> [] \<and> s \<noteq> [] \<and> list_all (\<lambda>t. t = live) s)"
| "enabled (MicRejected err) w = (pending_starts w \<noteq> [])"
| "enabled (DataAvailable rid data) w = delivering w rid"
| "enabled (StopEvent rid) w = stop_pending w rid"
| "enabled (Wait d) w = True"
| "enabled (FetchDone outcome) w = (in_flight w \<noteq> 0)"

fun feasible :: "event list \<Rightarrow> world \<Rightarrow> bool" where
  "feasible [] w = True"
| "feasible (e # es) w = (enabled e w \<and> feasible es (step e w))"

subsection \<open>Rendering\<close>

text \<open>
  Decimal text of numbers. A \<open>Finite x\<close> stands for the double whose exact value is the
  rational \<open>x\<close> (the two zeros are one value here: they print alike).
\<close>

definition digit_char :: "nat \<Rightarrow> char" where
  "digit_char d = ''0123456789'' ! d"

fun digits :: "nat \<Rightarrow> string" where
  "digits n = (if n < 10 then [digit_char n] else digits (n div 10) @ [digit_char (n mod 10)])"

declare digits.simps [simp del]

text \<open>
  The number of digits of \<open>n\<close> in base \<open>b\<close>, and with it the integer logarithm of a
  positive rational: \<open>b ^ floor_log b a \<le> a < b ^ (floor_log b a + 1)\<close>.
\<close>

fun digit_count :: "nat \<Rightarrow> nat \<Rightarrow> nat" where
  "digit_count b n = (if n = 0 \<or> b < 2 then 0 else Suc (digit_count b (n div b)))"

declare digit_count.simps [simp del]

definition floor_log :: "nat \<Rightarrow> rat \<Rightarrow> int" where
  "floor_log b a =
     (if 1 \<le> a then int (digit_count b (nat \<lfloor>a\<rfloor>)) - 1
      else - int (digit_count b (nat (\<lceil>1 / a\<rceil> - 1))))"

definition scale :: "nat \<Rightarrow> int \<Rightarrow> rat" where
  "scale b e = (if 0 \<le> e then of_nat b ^ nat e else 1 / of_nat b ^ nat (- e))"

text \<open>
  Rounding of a positive real to the nearest double, ties to the even significand: 53 bits
  of significand, the smallest exponent that of the subnormal numbers; \<open>None\<close> is the
  overflow to infinity.
\<close>

definition round_half_even :: "rat \<Rightarrow> int" where
  "round_half_even r =
     (let f = \<lfloor>r\<rfloor>; d = r - of_int f
      in if d < 1 / 2 then f else if 1 / 2 < d then f + 1 else if even f then f else f + 1)"

definition round_double :: "rat \<Rightarrow> rat option" where
  "round_double a =
     (let e = max (floor_log 2 a - 52) (- 1074);
          q = scale 2 e;
          r = of_int (round_half_even (a / q)) * q
      in if 2 ^ 1024 \<le> r then None else Some r)"

text \<open>The operator \<^verbatim>\<open>*\<close> on numbers.\<close>

fun multiply :: "number \<Rightarrow> number \<Rightarrow> number" where
  "multiply NaN y = NaN"
| "multiply x NaN = NaN"
| "multiply (Finite x) (Finite y) =
     (if x * y = 0 then Finite 0
      else case round_double \<bar>x * y\<bar> of
             None \<Rightarrow> (if x * y < 0 then NegInfinity else PosInfinity)
           | Some r \<Rightarrow> Finite (if x * y < 0 then - r else r))"
| "multiply (Finite x) PosInfinity =
     (if x = 0 then NaN else if x < 0 then NegInfinity else PosInfinity)"
| "multiply (Finite x) NegInfinity =
     (if x = 0 then NaN else if x < 0 then PosInfinity else NegInfinity)"
| "multiply PosInfinity (Finite y) =
     (if y = 0 then NaN else if y < 0 then NegInfinity else PosInfinity)"
| "multiply NegInfinity (Finite y) =
     (if y = 0 then NaN else if y < 0 then PosInfinity else NegInfinity)"
| "multiply PosInfinity PosInfinity = PosInfinity"
| "multiply PosInfinity NegInfinity = NegInfinity"
| "multiply NegInfinity PosInfinity = NegInfinity"
| "multiply NegInfinity NegInfinity = PosInfinity"

declare multiply.simps [simp del]

text \<open>
  \<^verbatim>\<open>Number::toString\<close> of ECMAScript for a positive double \<open>x\<close>: the integers
  \<open>n\<close>, \<open>k\<close> and \<open>s\<close> with \<open>k\<close> digits in \<open>s\<close>, as few as possible, such that
  \<open>s * 10 ^ (n - k)\<close> rounds to \<open>x\<close>; among several \<open>s\<close> the one nearest to \<open>x\<close>.
  A candidate is a pair \<open>(n, s)\<close>. Seventeen digits identify every double.
\<close>

definition decimal_value :: "nat \<Rightarrow> int \<times> int \<Rightarrow> rat" where
  "decimal_value k c = of_int (snd c) * scale 10 (fst c - int k)"

definition candidates :: "rat \<Rightarrow> nat \<Rightarrow> (int \<times> int) list" where
  "candidates x k =
     (let d = floor_log 10 x + 1;
          around = (\<lambda>n. let f = \<lfloor>x / scale 10 (n - int k)\<rfloor> in [(n, f), (n, f + 1)])
      in filter (\<lambda>c. 10 ^ (k - 1) \<le> snd c \<and> snd c < 10 ^ k \<and>
                      round_double (decimal_value k c) = Some x)
           (around d @ around (d + 1)))"

definition closer :: "rat \<Rightarrow> nat \<Rightarrow> int \<times> int \<Rightarrow> int \<times> int \<Rightarrow> int \<times> int" where
  "closer x k c b =
     (let db = \<bar>decimal_value k b - x\<bar>; dc = \<bar>decimal_value k c - x\<bar>
      in if dc < db \<or> (dc = db \<and> even (snd c) \<and> odd (snd b)) then c else b)"

definition best :: "rat \<Rightarrow> nat \<Rightarrow> (int \<times> int) option" where
  "best x k = (case candidates x k of [] \<Rightarrow> None | c # cs \<Rightarrow> Some (fold (closer x k) cs c))"

fun search :: "rat \<Rightarrow> nat list \<Rightarrow> int \<times> nat \<times> int" where
  "search x [] = (floor_log 10 x + 1, 17, \<lfloor>x / scale 10 (floor_log 10 x + 1 - 17)\<rfloor>)"
| "search x (k # ks) = (case best x k of Some c \<Rightarrow> (fst c, k, snd c) | None \<Rightarrow> search x ks)"

definition shortest :: "rat \<Rightarrow> int \<times> nat \<times> int" where
  "shortest x = search x [1, 2, 3, 4, 5, 6, 7, 8, 9, 10, 11, 12, 13, 14, 15, 16, 17]"

definition positive_toString :: "rat \<Rightarrow> string" where
  "positive_toString x =
     (case shortest x of (n, k, s) \<Rightarrow>
        (let ds = digits (nat s) in
         if - 5 \<le> n \<and> n \<le> 21 then
           (if int k \<le> n then ds @ replicate (nat (n - int k)) (CHR ''0'')
            else if 0 < n then take (nat n) ds @ ''.'' @ drop (nat n) ds
            else ''0.'' @ replicate (nat (- n)) (CHR ''0'') @ ds)
         else
           (let e = digits (nat \<bar>n - 1\<bar>); sign = (if n < 0 then ''-'' else ''+'')
            in if k = 1 then ds @ ''e'' @ sign @ e
               else [hd ds] @ ''.'' @ tl ds @ ''e'' @ sign @ e)))"

text \<open>A number as React renders it: \<^verbatim>\<open>Number::toString\<close>.\<close>

fun Number_toString :: "number \<Rightarrow> string" where
  "Number_toString NaN = ''NaN''"
| "Number_toString PosInfinity = ''Infinity''"
| "Number_toString NegInfinity = ''-Infinity''"
| "Number_toString (Finite x) =
     (if x = 0 then ''0''
      else if x < 0 then ''-'' @ positive_toString (- x)
      else positive_toString x)"

declare Number_toString.simps [simp del]

text \<open>
  \<^verbatim>\<open>Number.prototype.toFixed\<close> of ECMAScript, for \<open>f\<close> from 0 to 100 (the component
  calls it with 1): a number that is not finite prints as \<^verbatim>\<open>Number::toString\<close>
  prints it; otherwise the sign, and then, from \<open>10^21\<close> on, the text of
  \<^verbatim>\<open>Number::toString\<close>, and below \<open>10^21\<close> the integer \<open>n\<close> nearest to
  \<open>x * 10^f\<close> (the larger one at a tie), padded with zeros and split by the decimal
  point.
\<close>

fun toFixed :: "nat \<Rightarrow> number \<Rightarrow> string" where
  "toFixed f NaN = Number_toString NaN"
| "toFixed f PosInfinity = Number_toString PosInfinity"
| "toFixed f NegInfinity = Number_toString NegInfinity"
| "toFixed f (Finite x) =
     (let s = (if x < 0 then ''-'' else []);
          x1 = (if x < 0 then - x else x);
          m = (if 10 ^ 21 \<le> x1 then Number_toString (Finite x1)
               else
                 (let n = nat \<lfloor>x1 * 10 ^ f + 1 / 2\<rfloor>;
                      m0 = digits n
                  in if f \<noteq> 0 then
                       (let k = length m0;
                            m2 = (if k \<le> f then replicate (f + 1 - k) (CHR ''0'') @ m0 else m0);
                            k2 = length m2
                        in take (k2 - f) m2 @ ''.'' @ drop (k2 - f) m2)
                     else m0))
      in s @ m)"

declare toFixed.simps [simp del]

text \<open>\<^verbatim>\<open>Array.prototype.join\<close>\<close>

fun join :: "string \<Rightarrow> string list \<Rightarrow> string" where
  "join sep [] = []"
| "join sep [x] = x"
| "join sep (x # y # ys) = x @ sep @ join sep (y # ys)"

text \<open>The tree of elements the component returns.\<close>

datatype variant = h3 | h4 | h6 | body1 | subtitle1 | unset

datatype color = color_error | color_primary

datatype icon = StopIcon | MicIcon

datatype node =
    Container "node list"
  | Paper "node list"
  | Box "node list"
  | Grid "node list"
  | Typography variant string
  | TextField string string
  | Button color icon handler string
  | CircularProgress

definition loading_view :: "node list" where
  "loading_view =
     [Box [CircularProgress, Typography unset ''Processing your response...'']]"

definition keywords_view :: "ScoreResult \<Rightarrow> node list" where
  "keywords_view s =
     (if length (matched_keywords s) > 0 then
        [Typography body1 (''Matched Keywords: '' @ join '', '' (matched_keywords s))]
      else [])"

definition score_view :: "ScoreResult \<Rightarrow> node" where
  "score_view s =
     Paper ([Typography h6 ''Job Relevance Analysis'',
             Box [Typography h4 (toFixed 1 (score_number s) @ ''%''),
                  Typography subtitle1 ''Relevance Score'']]
            @ keywords_view s)"

definition analysis_view :: "AnalysisResult \<Rightarrow> node" where
  "analysis_view a =
     Paper [Typography h6 ''Speech Analysis'',
            Grid [Grid [Box [Typography subtitle1 ''Total Words'',
                             Typography h4 (Number_toString (total_words a))]],
                  Grid [Box [Typography subtitle1 ''Filler Words'',
                             Typography h4 (Number_toString (filler_words a))]],
                  Grid [Box [Typography subtitle1 ''Filler Word Ratio'',
                             Typography h4 (toFixed 1 (multiply (filler_ratio a) (Finite 100)) @ ''%'')]]]]"

definition result_view :: "ProcessedResult \<Rightarrow> node list" where
  "result_view r =
     [Paper [Typography h6 ''Your Answer'', Typography body1 (transcription r)],
      analysis_view (analysis r)]
     @ (case score r of None \<Rightarrow> [] | Some s \<Rightarrow> [score_view s])
     @ [Paper (Typography h6 ''Feedback & Suggestions'' # map (Typography body1) (feedback r))]"

definition controls_view :: "world \<Rightarrow> node list" where
  "controls_view w =
     [Typography h3 (''AI Interview Coach '' @ [CHR 0xF0, CHR 0x9F, CHR 0x8E, CHR 0xAF]),
      Paper [Typography h6 ''Job Description (Optional)'',
             TextField (jobDescription w)
               ''Paste the job description here to get more relevant feedback...''],
      Paper [Typography h6 ''Practice Interview'',
             Button (if isRecording w then color_error else color_primary)
                    (if isRecording w then StopIcon else MicIcon)
                    (button_onClick w)
                    (if isRecording w then ''Stop Recording'' else ''Start Recording (30s)'')]]"

definition render :: "world \<Rightarrow> node" where
  "render w =
     Container (controls_view w
                @ (if loading w then loading_view else [])
                @ (case result w of None \<Rightarrow> [] | Some r \<Rightarrow> result_view r))"

text \<open>What a tree shows: its leaves, from top to bottom.\<close>

fun leaves :: "node \<Rightarrow> node list" where
  "leaves (Container ns) = concat (map leaves ns)"
| "leaves (Paper ns) = concat (map leaves ns)"
| "leaves (Box ns) = concat (map leaves ns)"
| "leaves (Grid ns) = concat (map leaves ns)"
| "leaves (Typography v t) = [Typography v t]"
| "leaves (TextField v p) = [TextField v p]"
| "leaves (Button c i h l) = [Button c i h l]"
| "leaves CircularProgress = [CircularProgress]"

subsection \<open>Traces\<close>

text \<open>
  The data that recorder \<open>rid\<close> delivers in a trace (its \<^verbatim>\<open>dataavailable\<close>
  events), in the order of delivery.
\<close>

fun chunks_from :: "nat \<Rightarrow> event list \<Rightarrow> blob list" where
  "chunks_from rid [] = []"
| "chunks_from rid (DataAvailable r data # es) =
     (if r = rid then data # chunks_from rid es else chunks_from rid es)"
| "chunks_from rid (e # es) = chunks_from rid es"

text \<open>
  The events that can occur during the session of recorder \<open>rid\<close>, before its
  \<^verbatim>\<open>stop\<close> event: no other session begins, and the data delivered is the data of
  this recorder.
\<close>

fun session_event :: "nat \<Rightarrow> event \<Rightarrow> bool" where
  "session_event rid (MicGranted s) = False"
| "session_event rid (StopEvent r) = (r \<noteq> rid)"
| "session_event rid (DataAvailable r data) = (r = rid)"
| "session_event rid e = True"

text \<open>The number of recorders that are recording, and of recorders that hold a live track.\<close>

definition recording_count :: "world \<Rightarrow> nat" where
  "recording_count w = length (filter (\<lambda>r. state r = recording) (recorders w))"

definition held_streams :: "world \<Rightarrow> nat" where
  "held_streams w = length (filter (\<lambda>r. list_ex (\<lambda>t. t = live) (stream r)) (recorders w))"

text \<open>
  The first recorder records on a live track, and the ref points to a later recorder.
\<close>

definition first_recorder_orphaned :: "world \<Rightarrow> bool" where
  "first_recorder_orphaned w =
     (case mediaRecorderRef w of
        None \<Rightarrow> False
      | Some rid \<Rightarrow>
          0 < rid \<and> recorders w \<noteq> [] \<and> state (recorders w ! 0) = recording \<and>
          stream (recorders w ! 0) = [live])"

text \<open>
  The response of the spec's examples. The score is the double that the JSON text
  \<^verbatim>\<open>82.456\<close> denotes, \<open>5802325169913463 / 2^46\<close>.
\<close>

definition example_score :: ScoreResult where
  "example_score =
     \<lparr> score_number = Finite (5802325169913463 / 70368744177664),
       matched_keywords = [''python'', ''api''] \<rparr>"

definition example_result :: ProcessedResult where
  "example_result =
     \<lparr> success = True, transcription = ''hello world'',
       analysis = \<lparr> total_words = Finite 2, filler_words = Finite 0,
                    filler_ratio = Finite 0 \<rparr>,
       score = Some example_score,
       feedback = [''Good job''] \<rparr>"

text \<open>One session: start, one chunk, manual stop.\<close>

definition one_session :: "event list" where
  "one_session = [ClickButton, MicGranted [live], DataAvailable 0 [1, 2], ClickButton]"

text \<open>
  A start has been requested with a job description typed in, and then a session in
  which three chunks are delivered, the last one after the manual stop.
\<close>

definition awaiting_microphone :: world where
  "awaiting_microphone = step ClickButton (step (EditJobDescription ''dev'') init)"

definition chunked_session :: "event list" where
  "chunked_session =
     [DataAvailable 0 [1, 2], EditJobDescription ''ops'', DataAvailable 0 [3],
      ClickButton, DataAvailable 0 [4, 5]]"

text \<open>
  A recording is stopped and the next one is started before the \<^verbatim>\<open>stop\<close> event
  of the first is handled; the last chunk of the first recorder arrives in between.
\<close>

definition restart_before_stop_event :: "event list" where
  "restart_before_stop_event =
     [ClickButton, MicGranted [live], DataAvailable 0 [1], ClickButton,
      ClickButton, MicGranted [live], DataAvailable 0 [2], StopEvent 0]"

text \<open>After a double start both recorders deliver data; then the second one is stopped.\<close>

definition double_start_with_data :: "event list" where
  "double_start_with_data =
     [ClickButton, ClickButton, MicGranted [live], MicGranted [live],
      DataAvailable 0 [1], DataAvailable 1 [2], DataAvailable 0 [3],
      ClickButton, StopEvent 1]"

text \<open>A result is on display.\<close>

definition displaying_example :: world where
  "displaying_example = init\<lparr> result := Some example_result \<rparr>"

text \<open>A result whose score is \<open>10^21\<close>, without keywords, is on display.\<close>

definition huge_score :: ScoreResult where
  "huge_score = \<lparr> score_number = Finite 1000000000000000000000, matched_keywords = [] \<rparr>"

definition displaying_huge_score :: world where
  "displaying_huge_score = init\<lparr> result := Some (example_result\<lparr> score := Some huge_score \<rparr>) \<rparr>"

text \<open>
  A second recording is made while the result of the first is on display, and is being
  uploaded.
\<close>

definition resubmit :: "event list" where
  "resubmit =
     [ClickButton, MicGranted [live], ClickButton, StopEvent 0,
      FetchDone (json_resolved 200 (Some example_result)),
      ClickButton, MicGranted [live], ClickButton, StopEvent 1]"

text \<open>
  The button is clicked twice before the permission prompt is answered; then both calls
  of \<^verbatim>\<open>getUserMedia\<close> resolve.
\<close>

definition double_start :: "event list" where
  "double_start = [ClickButton, ClickButton, MicGranted [live], MicGranted [live]]"

text \<open>
  A recording is stopped by hand after 10 seconds, and a second one is started 5 seconds
  later, 15 seconds before the deadline of the first.
\<close>

definition stale_timer :: "event list" where
  "stale_timer =
     [ClickButton, MicGranted [live], Wait 10000, ClickButton, StopEvent 0,
      FetchDone (json_resolved 200 (Some example_result)),
      Wait 5000, ClickButton, MicGranted [live]]"

section \<open>Properties\<close>

lemmas handler_defs =
  button_onClick_def startRecording_call_def startRecording_granted_def
  startRecording_rejected_def stopRecording_def sendAudioToServer_call_def
  sendAudioToServer_resume_def catch_upload_def on_dataavailable_def on_stop_def
  timeout_callback_def setTimeout_def advance_def delivering_def stop_pending_def
  current_is_recording_def new_MediaRecorder_def recorder_start_def recorder_stop_def
  stop_tracks_def Blob_def

lemma run_append: "run (es @ fs) w = run fs (run es w)"
  by (simp add: run_def)

lemma run_one_session:
  "run one_session init =
     \<lparr> isRecording = False, jobDescription = [], loading = False, result = None,
       mediaRecorderRef = Some 0, chunksRef = [[1, 2]],
       recorders =
         [\<lparr> state = inactive, stream = [ended], stop_queued = True,
             listener_jobDescription = [] \<rparr>],
       pending_starts = [], in_flight = 0, requests = [],
       timers = [30000], now = 0, alerts = [], console = [] \<rparr>"
  by (simp add: run_def one_session_def init_def handler_defs Let_def)

subsection \<open>What \<open>stopRecording\<close> and the timeout change\<close>

lemma stopRecording_idle: "\<not> current_is_recording w \<Longrightarrow> stopRecording w = w"
  by (auto simp: current_is_recording_def stopRecording_def split: option.splits)

lemma stopRecording_stops: "\<not> current_is_recording (stopRecording w)"
  by (auto simp: current_is_recording_def stopRecording_def Let_def recorder_stop_def
                 stop_tracks_def split: option.splits)

lemma timeout_callback_eq: "timeout_callback w = stopRecording w"
  by (auto simp: timeout_callback_def current_is_recording_def stopRecording_def
           split: option.splits)

lemma stopRecording_chunksRef: "chunksRef (stopRecording w) = chunksRef w"
  by (simp add: stopRecording_def Let_def split: option.splits)

lemma stopRecording_length: "length (recorders (stopRecording w)) = length (recorders w)"
  by (simp add: stopRecording_def Let_def split: option.splits)

lemma stopRecording_listener:
  "listener_jobDescription (recorders (stopRecording w) ! i)
     = listener_jobDescription (recorders w ! i)"
  by (simp add: stopRecording_def Let_def recorder_stop_def stop_tracks_def nth_list_update
           split: option.splits)

lemma stopRecording_delivering: "delivering w i \<Longrightarrow> delivering (stopRecording w) i"
  by (auto simp: stopRecording_def Let_def delivering_def recorder_stop_def stop_tracks_def
                 nth_list_update split: option.splits)

lemma state_dequeue:
  "state (rs[r := (rs ! r)\<lparr> stop_queued := False \<rparr>] ! i) = state (rs ! i)"
proof (cases "i = r \<and> r < length rs")
  case True
  then show ?thesis by simp
next
  case False
  then show ?thesis by (cases "i = r") (simp_all add: list_update_beyond)
qed

subsection \<open>Chunks and the uploaded blob\<close>

lemma fold_timeout_session:
  "chunksRef (fold (\<lambda>_. timeout_callback) xs w) = chunksRef w
   \<and> length (recorders (fold (\<lambda>_. timeout_callback) xs w)) = length (recorders w)
   \<and> listener_jobDescription (recorders (fold (\<lambda>_. timeout_callback) xs w) ! i)
       = listener_jobDescription (recorders w ! i)
   \<and> (delivering w i \<longrightarrow> delivering (fold (\<lambda>_. timeout_callback) xs w) i)"
proof (induction xs arbitrary: w)
  case Nil
  show ?case by simp
next
  case (Cons x xs)
  show ?case
    using Cons.IH [of "stopRecording w"]
    by (simp add: timeout_callback_eq stopRecording_chunksRef stopRecording_length
                  stopRecording_listener stopRecording_delivering)
qed

lemma advance_session:
  "chunksRef (advance d w) = chunksRef w
   \<and> length (recorders (advance d w)) = length (recorders w)
   \<and> listener_jobDescription (recorders (advance d w) ! i)
       = listener_jobDescription (recorders w ! i)
   \<and> (delivering w i \<longrightarrow> delivering (advance d w) i)"
  using fold_timeout_session
    [of "filter (\<lambda>x. x \<le> now w + d) (timers w)"
        "w\<lparr> timers := filter (\<lambda>x. \<not> x \<le> now w + d) (timers w), now := now w + d \<rparr>" i]
  by (simp add: advance_def Let_def delivering_def)

lemma step_session:
  assumes "session_event rid e" and "delivering w rid"
  shows "chunksRef (step e w) = chunksRef w @ chunks_from rid [e]
         \<and> listener_jobDescription (recorders (step e w) ! rid)
             = listener_jobDescription (recorders w ! rid)
         \<and> delivering (step e w) rid"
proof (cases e)
  case ClickButton
  show ?thesis
  proof (cases "isRecording w")
    case True
    with ClickButton have "step e w = stopRecording w"
      by (simp add: button_onClick_def)
    then show ?thesis
      using ClickButton assms(2)
      by (simp add: stopRecording_chunksRef stopRecording_listener stopRecording_delivering)
  next
    case False
    with ClickButton have "step e w = startRecording_call w"
      by (simp add: button_onClick_def)
    then show ?thesis
      using ClickButton assms(2) by (simp add: startRecording_call_def delivering_def)
  qed
next
  case (EditJobDescription t)
  then show ?thesis using assms by (simp add: delivering_def)
next
  case (MicGranted s)
  then show ?thesis using assms by simp
next
  case (MicRejected err)
  then show ?thesis
    using assms
    by (simp add: startRecording_rejected_def delivering_def split: list.splits)
next
  case (DataAvailable r data)
  then show ?thesis
    using assms by (simp add: on_dataavailable_def delivering_def)
next
  case (StopEvent r)
  then show ?thesis
    using assms
    by (simp add: on_stop_def sendAudioToServer_call_def Let_def delivering_def
                  stop_pending_def nth_list_update)
next
  case (Wait d)
  then show ?thesis
    using assms advance_session [of d w rid] by simp
next
  case (FetchDone outcome)
  then show ?thesis
    using assms
    by (simp add: sendAudioToServer_resume_def catch_upload_def delivering_def
             split: fetch_outcome.splits)
qed

lemma chunks_from_append:
  "chunks_from rid (es @ fs) = chunks_from rid es @ chunks_from rid fs"
  by (induction rid es rule: chunks_from.induct) simp_all

lemma run_session:
  assumes "list_all (session_event rid) es" and "delivering w rid"
  shows "chunksRef (run es w) = chunksRef w @ chunks_from rid es
         \<and> listener_jobDescription (recorders (run es w) ! rid)
             = listener_jobDescription (recorders w ! rid)"
  using assms
proof (induction es arbitrary: w)
  case Nil
  show ?case by (simp add: run_def)
next
  case (Cons e es)
  from Cons.prems have e: "session_event rid e" and es: "list_all (session_event rid) es"
    by simp_all
  note st = step_session [OF e Cons.prems(2)]
  from st have d: "delivering (step e w) rid" by simp
  have c: "chunks_from rid (e # es) = chunks_from rid [e] @ chunks_from rid es"
    using chunks_from_append [of rid "[e]" es] by simp
  show ?case
    using Cons.IH [OF es d] st c by (simp add: run_def)
qed

lemma granted_session:
  assumes "pending_starts w = jd # ps"
  shows "chunksRef (step (MicGranted s) w) = []
         \<and> delivering (step (MicGranted s) w) (length (recorders w))
         \<and> listener_jobDescription (recorders (step (MicGranted s) w) ! length (recorders w)) = jd"
  using assms
  by (simp add: startRecording_granted_def Let_def setTimeout_def new_MediaRecorder_def
                recorder_start_def delivering_def)

text \<open>
  C1, amended. A session begins when \<^verbatim>\<open>getUserMedia\<close> resolves for a
  suspended \<^verbatim>\<open>startRecording\<close>. If, until the \<^verbatim>\<open>stop\<close> event of its
  recorder is handled, no other session begins and no other recorder delivers data, then
  the request issued at that event carries the concatenation of the chunks the recorder
  has delivered, in the order of delivery.
\<close>

theorem C1_blob_is_concatenation_of_chunks:
  assumes "pending_starts w = jd # ps"
      and "list_all (session_event (length (recorders w))) es"
      and "stop_pending (run es (step (MicGranted s) w)) (length (recorders w))"
  shows "requests (step (StopEvent (length (recorders w))) (run es (step (MicGranted s) w)))
         = requests (run es (step (MicGranted s) w))
           @ [\<lparr> audio = concat (chunks_from (length (recorders w)) es),
                job_description = jd \<rparr>]"
proof -
  let ?rid = "length (recorders w)"
  let ?w1 = "step (MicGranted s) w"
  let ?w2 = "run es ?w1"
  note g = granted_session [OF assms(1), of s]
  from g have d: "delivering ?w1 ?rid" by simp
  note r = run_session [OF assms(2) d]
  from r g have chunks: "chunksRef ?w2 = chunks_from ?rid es"
    and jd: "listener_jobDescription (recorders ?w2 ! ?rid) = jd"
    by simp_all
  show ?thesis
    using assms(3) chunks jd
    by (simp add: on_stop_def sendAudioToServer_call_def Blob_def Let_def)
qed

lemma awaiting_microphone_eq:
  "awaiting_microphone = init\<lparr> jobDescription := ''dev'', pending_starts := [''dev''] \<rparr>"
  by (simp add: awaiting_microphone_def init_def handler_defs)

lemma run_chunked_session:
  "run chunked_session (step (MicGranted [live]) awaiting_microphone) =
     \<lparr> isRecording = False, jobDescription = ''ops'', loading = False, result = None,
       mediaRecorderRef = Some 0, chunksRef = [[1, 2], [3], [4, 5]],
       recorders =
         [\<lparr> state = inactive, stream = [ended], stop_queued = True,
             listener_jobDescription = ''dev'' \<rparr>],
       pending_starts = [], in_flight = 0, requests = [],
       timers = [30000], now = 0, alerts = [], console = [] \<rparr>"
  by (simp add: run_def chunked_session_def awaiting_microphone_eq init_def handler_defs Let_def)

theorem C1_blob_is_concatenation_of_chunks_witness:
  "pending_starts awaiting_microphone = [''dev'']
   \<and> list_all (session_event 0) chunked_session
   \<and> stop_pending (run chunked_session (step (MicGranted [live]) awaiting_microphone)) 0
   \<and> requests (step (StopEvent 0)
         (run chunked_session (step (MicGranted [live]) awaiting_microphone)))
       = [\<lparr> audio = [1, 2, 3, 4, 5], job_description = ''dev'' \<rparr>]"
proof -
  have len: "length (recorders awaiting_microphone) = 0"
    by (simp add: awaiting_microphone_eq init_def)
  have a: "pending_starts awaiting_microphone = ''dev'' # []"
    by (simp add: awaiting_microphone_eq init_def)
  have b: "list_all (session_event (length (recorders awaiting_microphone))) chunked_session"
    by (simp add: len chunked_session_def)
  have c: "stop_pending (run chunked_session (step (MicGranted [live]) awaiting_microphone))
             (length (recorders awaiting_microphone))"
    by (simp add: len run_chunked_session stop_pending_def del: step.simps)
  have d: "requests (run chunked_session (step (MicGranted [live]) awaiting_microphone)) = []"
    by (simp add: run_chunked_session del: step.simps)
  have e: "concat (chunks_from 0 chunked_session) = [1, 2, 3, 4, 5]"
    by (simp add: chunked_session_def)
  from C1_blob_is_concatenation_of_chunks [OF a b c] a b c
  show ?thesis by (simp add: len d e del: step.simps)
qed

lemma run_restart_before_stop_event:
  "run restart_before_stop_event init =
     \<lparr> isRecording = True, jobDescription = [], loading = True, result = None,
       mediaRecorderRef = Some 1, chunksRef = [[2]],
       recorders =
         [\<lparr> state = inactive, stream = [ended], stop_queued = False,
             listener_jobDescription = [] \<rparr>,
          \<lparr> state = recording, stream = [live], stop_queued = False,
             listener_jobDescription = [] \<rparr>],
       pending_starts = [], in_flight = 1,
       requests = [\<lparr> audio = [2], job_description = [] \<rparr>],
       timers = [30000, 30000], now = 0, alerts = [], console = [] \<rparr>"
  by (simp add: run_def restart_before_stop_event_def init_def handler_defs Let_def)

lemma feasible_restart_before_stop_event: "feasible restart_before_stop_event init"
  by (simp add: restart_before_stop_event_def init_def handler_defs Let_def)

lemma run_double_start_with_data:
  "run double_start_with_data init =
     \<lparr> isRecording = False, jobDescription = [], loading = True, result = None,
       mediaRecorderRef = Some 1, chunksRef = [[1], [2], [3]],
       recorders =
         [\<lparr> state = recording, stream = [live], stop_queued = False,
             listener_jobDescription = [] \<rparr>,
          \<lparr> state = inactive, stream = [ended], stop_queued = False,
             listener_jobDescription = [] \<rparr>],
       pending_starts = [], in_flight = 1,
       requests = [\<lparr> audio = [1, 2, 3], job_description = [] \<rparr>],
       timers = [30000, 30000], now = 0, alerts = [], console = [] \<rparr>"
  by (simp add: run_def double_start_with_data_def init_def handler_defs Let_def)

lemma feasible_double_start_with_data: "feasible double_start_with_data init"
  by (simp add: double_start_with_data_def init_def handler_defs Let_def)

text \<open>
  C1, as stated, fails when sessions overlap, since all recorders share one buffer. When a
  recording is restarted before the \<^verbatim>\<open>stop\<close> event of the first session, that
  session has delivered two chunks and uploads the second one only. After a double start,
  the second recorder has delivered one chunk and uploads it between two chunks of the
  first recorder.
\<close>

theorem C1_overlapping_sessions_share_the_buffer:
  "feasible restart_before_stop_event init
   \<and> chunks_from 0 restart_before_stop_event = [[1], [2]]
   \<and> map audio (requests (run restart_before_stop_event init)) = [[2]]
   \<and> feasible double_start_with_data init
   \<and> chunks_from 1 double_start_with_data = [[2]]
   \<and> map audio (requests (run double_start_with_data init)) = [[1, 2, 3]]"
proof -
  have a: "chunks_from 0 restart_before_stop_event = [[1], [2]]"
    by (simp add: restart_before_stop_event_def)
  have b: "map audio (requests (run restart_before_stop_event init)) = [[2]]"
    unfolding run_restart_before_stop_event by simp
  have c: "chunks_from 1 double_start_with_data = [[2]]"
    by (simp add: double_start_with_data_def)
  have d: "map audio (requests (run double_start_with_data init)) = [[1, 2, 3]]"
    unfolding run_double_start_with_data by simp
  show ?thesis
    by (intro conjI feasible_restart_before_stop_event a b feasible_double_start_with_data c d)
qed

subsection \<open>Uploads\<close>

text \<open>
  C2. When \<^verbatim>\<open>fetch\<close> rejects, the user is alerted, the result is the one
  displayed before and \<open>loading\<close> is false; the same holds for the whole attempt, from
  the call of \<^verbatim>\<open>sendAudioToServer\<close> on.
\<close>

theorem C2_network_failure_keeps_result:
  "alerts (sendAudioToServer_resume fetch_rejected w)
     = alerts w @ [''Error processing audio. Please try again.'']
   \<and> result (sendAudioToServer_resume fetch_rejected w) = result w
   \<and> loading (sendAudioToServer_resume fetch_rejected w) = False
   \<and> result (sendAudioToServer_resume fetch_rejected (sendAudioToServer_call jd audioBlob w))
       = result w
   \<and> loading (sendAudioToServer_resume fetch_rejected (sendAudioToServer_call jd audioBlob w))
       = False"
  by (simp add: sendAudioToServer_resume_def sendAudioToServer_call_def catch_upload_def)

text \<open>
  C6, amended. When there is a response whose body parses, whatever its HTTP status, the
  parsed body becomes the result (nothing of the previous result is kept), \<open>loading\<close>
  is false and nobody is alerted: the status is never read.
\<close>

theorem C6_response_replaces_result:
  "result (sendAudioToServer_resume (json_resolved status data) w) = data
   \<and> loading (sendAudioToServer_resume (json_resolved status data) w) = False
   \<and> alerts (sendAudioToServer_resume (json_resolved status data) w) = alerts w
   \<and> sendAudioToServer_resume (json_resolved status data) w
       = sendAudioToServer_resume (json_resolved 200 data) w
   \<and> result (sendAudioToServer_resume (json_resolved status data)
               (sendAudioToServer_call jd audioBlob w)) = data
   \<and> loading (sendAudioToServer_resume (json_resolved status data)
                (sendAudioToServer_call jd audioBlob w)) = False"
  by (simp add: sendAudioToServer_resume_def sendAudioToServer_call_def)

text \<open>
  C6, as stated, fails for a response whose body is not JSON: with status 500 and such a
  body, the result on display stays and the user is alerted.
\<close>

theorem C6_unparsable_body_keeps_result:
  "result (sendAudioToServer_resume (json_rejected 500) displaying_example)
     = Some example_result
   \<and> alerts (sendAudioToServer_resume (json_rejected 500) displaying_example)
     = [''Error processing audio. Please try again.'']"
  by (simp add: sendAudioToServer_resume_def catch_upload_def displaying_example_def init_def)

text \<open>
  C9. When the body of the response is not JSON, the \<^verbatim>\<open>catch\<close> block runs as
  it does when \<^verbatim>\<open>fetch\<close> rejects: the same alert, the result unchanged,
  \<open>loading\<close> false. The two outcomes differ only in the error object written to the
  console.
\<close>

theorem C9_invalid_json_takes_failure_path:
  "alerts (sendAudioToServer_resume (json_rejected status) w)
     = alerts (sendAudioToServer_resume fetch_rejected w)
   \<and> alerts (sendAudioToServer_resume (json_rejected status) w)
     = alerts w @ [''Error processing audio. Please try again.'']
   \<and> result (sendAudioToServer_resume (json_rejected status) w) = result w
   \<and> loading (sendAudioToServer_resume (json_rejected status) w) = False
   \<and> sendAudioToServer_resume (json_rejected status) w
     = (sendAudioToServer_resume fetch_rejected w)
         \<lparr> console := console w @ [(''Error sending audio to server:'', SyntaxError)] \<rparr>
   \<and> result (sendAudioToServer_resume (json_rejected status)
               (sendAudioToServer_call jd audioBlob w)) = result w
   \<and> loading (sendAudioToServer_resume (json_rejected status)
                (sendAudioToServer_call jd audioBlob w)) = False"
  by (simp add: sendAudioToServer_resume_def sendAudioToServer_call_def catch_upload_def)

subsection \<open>The frame of \<open>stopRecording\<close>\<close>

lemma fold_timeout_flag:
  assumes "current_is_recording w \<longrightarrow> isRecording w"
  shows "current_is_recording (fold (\<lambda>_. timeout_callback) xs w)
         \<longrightarrow> isRecording (fold (\<lambda>_. timeout_callback) xs w)"
  using assms
proof (induction xs arbitrary: w)
  case Nil
  then show ?case by simp
next
  case (Cons x xs)
  have "current_is_recording (stopRecording w) \<longrightarrow> isRecording (stopRecording w)"
    by (simp add: stopRecording_stops)
  from Cons.IH [OF this] show ?case by (simp add: timeout_callback_eq)
qed

lemma step_flag:
  assumes "current_is_recording w \<longrightarrow> isRecording w"
  shows "current_is_recording (step e w) \<longrightarrow> isRecording (step e w)"
proof (cases e)
  case ClickButton
  show ?thesis
  proof (cases "isRecording w")
    case True
    with ClickButton show ?thesis by (simp add: button_onClick_def stopRecording_stops)
  next
    case False
    with ClickButton assms show ?thesis
      by (simp add: button_onClick_def startRecording_call_def current_is_recording_def
               split: option.splits)
  qed
next
  case (EditJobDescription t)
  with assms show ?thesis by (simp add: current_is_recording_def split: option.splits)
next
  case (MicGranted s)
  with assms show ?thesis
    by (simp add: startRecording_granted_def setTimeout_def Let_def split: list.splits)
next
  case (MicRejected err)
  with assms show ?thesis
    by (simp add: startRecording_rejected_def current_is_recording_def
             split: list.splits option.splits)
next
  case (DataAvailable r data)
  with assms show ?thesis
    by (simp add: on_dataavailable_def current_is_recording_def split: option.splits)
next
  case (StopEvent r)
  with assms show ?thesis
    by (simp add: on_stop_def sendAudioToServer_call_def Let_def current_is_recording_def
                  state_dequeue split: option.splits)
next
  case (Wait d)
  have "current_is_recording
          (w\<lparr> timers := filter (\<lambda>x. \<not> x \<le> now w + d) (timers w), now := now w + d \<rparr>)
        \<longrightarrow> isRecording
          (w\<lparr> timers := filter (\<lambda>x. \<not> x \<le> now w + d) (timers w), now := now w + d \<rparr>)"
    using assms by (simp add: current_is_recording_def split: option.splits)
  from fold_timeout_flag [OF this] Wait show ?thesis
    by (simp add: advance_def Let_def)
next
  case (FetchDone outcome)
  with assms show ?thesis
    by (simp add: sendAudioToServer_resume_def catch_upload_def current_is_recording_def
             split: fetch_outcome.splits option.splits)
qed

lemma run_flag:
  assumes "current_is_recording w \<longrightarrow> isRecording w"
  shows "current_is_recording (run es w) \<longrightarrow> isRecording (run es w)"
  using assms
proof (induction es arbitrary: w)
  case Nil
  then show ?case by (simp add: run_def)
next
  case (Cons e es)
  from Cons.IH [OF step_flag [OF Cons.prems, of e]] show ?case by (simp add: run_def)
qed

lemma init_flag: "current_is_recording init \<longrightarrow> isRecording init"
  by (simp add: init_def current_is_recording_def)

text \<open>
  C10. \<^verbatim>\<open>stopRecording\<close> changes at most \<open>isRecording\<close> and the recorder
  the ref points to: the result, the loading flag, the job description, the chunk buffer
  and every other recorder are as before. When the current recorder is not recording it
  changes nothing; in every state the component can reach from its initial state, that is
  the case whenever \<open>isRecording\<close> is false.
\<close>

theorem C10_stopRecording_frame:
  "stopRecording w
     = w\<lparr> recorders := recorders (stopRecording w), isRecording := isRecording (stopRecording w) \<rparr>
   \<and> result (stopRecording w) = result w
   \<and> loading (stopRecording w) = loading w
   \<and> jobDescription (stopRecording w) = jobDescription w
   \<and> chunksRef (stopRecording w) = chunksRef w
   \<and> (mediaRecorderRef w \<noteq> Some i \<longrightarrow> recorders (stopRecording w) ! i = recorders w ! i)
   \<and> (\<not> current_is_recording w \<longrightarrow> stopRecording w = w)
   \<and> (\<not> isRecording (run es init) \<longrightarrow> stopRecording (run es init) = run es init)"
proof -
  have frame: "stopRecording w
     = w\<lparr> recorders := recorders (stopRecording w), isRecording := isRecording (stopRecording w) \<rparr>"
    by (simp add: stopRecording_def Let_def split: option.splits)
  have fields: "result (stopRecording w) = result w" "loading (stopRecording w) = loading w"
    "jobDescription (stopRecording w) = jobDescription w"
    "chunksRef (stopRecording w) = chunksRef w"
    by (simp_all add: stopRecording_def Let_def split: option.splits)
  have others: "mediaRecorderRef w \<noteq> Some i \<longrightarrow> recorders (stopRecording w) ! i = recorders w ! i"
    by (simp add: stopRecording_def Let_def split: option.splits)
  have idle: "\<not> current_is_recording w \<longrightarrow> stopRecording w = w"
    by (simp add: stopRecording_idle)
  have reach: "\<not> isRecording (run es init) \<longrightarrow> stopRecording (run es init) = run es init"
    using run_flag [OF init_flag, of es] by (auto simp: stopRecording_idle)
  from frame fields others idle reach show ?thesis by blast
qed

theorem C10_stopRecording_frame_witness:
  "\<not> current_is_recording (run one_session init)
   \<and> \<not> isRecording (run one_session init)
   \<and> stopRecording (run one_session init) = run one_session init
   \<and> chunksRef (stopRecording (run one_session init)) = [[1, 2]]"
proof -
  have a: "\<not> current_is_recording (run one_session init)"
    by (simp add: run_one_session current_is_recording_def)
  have b: "\<not> isRecording (run one_session init)"
    by (simp add: run_one_session)
  have c: "chunksRef (run one_session init) = [[1, 2]]"
    by (simp add: run_one_session)
  from C10_stopRecording_frame [of "run one_session init" 1 one_session] a b c
  show ?thesis by simp
qed

subsection \<open>A start that fails\<close>

text \<open>
  C5. When \<^verbatim>\<open>getUserMedia\<close> rejects, the suspended call changes the alerts and
  the console and nothing else. So when the button is clicked while not recording and the
  request is refused, \<open>isRecording\<close> is false, the user is alerted, and the chunk
  buffer, the recorders, the result, the loading flag and the job description are those
  of before the click.
\<close>

theorem C5_rejected_start_changes_nothing:
  "(pending_starts w \<noteq> [] \<longrightarrow>
      step (MicRejected err) w
      = w\<lparr> pending_starts := tl (pending_starts w),
            console := console w @ [(''Error accessing microphone:'', err)],
            alerts := alerts w @
              [''Error accessing microphone. Please ensure you have granted microphone permissions.''] \<rparr>)
   \<and> (\<not> isRecording w \<longrightarrow>
      isRecording (step (MicRejected err) (step ClickButton w)) = False
      \<and> alerts (step (MicRejected err) (step ClickButton w))
          = alerts w @
            [''Error accessing microphone. Please ensure you have granted microphone permissions.'']
      \<and> chunksRef (step (MicRejected err) (step ClickButton w)) = chunksRef w
      \<and> recorders (step (MicRejected err) (step ClickButton w)) = recorders w
      \<and> mediaRecorderRef (step (MicRejected err) (step ClickButton w)) = mediaRecorderRef w
      \<and> result (step (MicRejected err) (step ClickButton w)) = result w
      \<and> loading (step (MicRejected err) (step ClickButton w)) = loading w
      \<and> jobDescription (step (MicRejected err) (step ClickButton w)) = jobDescription w
      \<and> timers (step (MicRejected err) (step ClickButton w)) = timers w
      \<and> requests (step (MicRejected err) (step ClickButton w)) = requests w)"
  by (cases "pending_starts w")
     (simp_all add: button_onClick_def startRecording_call_def startRecording_rejected_def)

theorem C5_rejected_start_changes_nothing_witness:
  "pending_starts (step ClickButton init) \<noteq> []
   \<and> \<not> isRecording init
   \<and> step (MicRejected NotAllowedError) (step ClickButton init)
       = init\<lparr> console := [(''Error accessing microphone:'', NotAllowedError)],
               alerts :=
                 [''Error accessing microphone. Please ensure you have granted microphone permissions.''] \<rparr>
   \<and> isRecording (step (MicRejected NotAllowedError) (step ClickButton init)) = False
   \<and> chunksRef (step (MicRejected NotAllowedError) (step ClickButton init)) = []
   \<and> recorders (step (MicRejected NotAllowedError) (step ClickButton init)) = []"
proof -
  have a: "pending_starts (step ClickButton init) \<noteq> []"
    by (simp add: init_def button_onClick_def startRecording_call_def)
  have b: "\<not> isRecording init" by (simp add: init_def)
  have c: "step ClickButton init = init\<lparr> pending_starts := [[]] \<rparr>"
    by (simp add: init_def button_onClick_def startRecording_call_def)
  from C5_rejected_start_changes_nothing [of "step ClickButton init" NotAllowedError] a
  have d: "step (MicRejected NotAllowedError) (step ClickButton init)
       = init\<lparr> console := [(''Error accessing microphone:'', NotAllowedError)],
               alerts :=
                 [''Error accessing microphone. Please ensure you have granted microphone permissions.''] \<rparr>"
    unfolding c by (simp add: init_def)
  from C5_rejected_start_changes_nothing [of init NotAllowedError] b
  have e: "isRecording (step (MicRejected NotAllowedError) (step ClickButton init)) = False"
    "chunksRef (step (MicRejected NotAllowedError) (step ClickButton init)) = chunksRef init"
    "recorders (step (MicRejected NotAllowedError) (step ClickButton init)) = recorders init"
    by blast+
  have f: "chunksRef init = []" "recorders init = []" by (simp_all add: init_def)
  show ?thesis
    using a b d e unfolding f by (intro conjI)
qed

subsection \<open>What is shown\<close>

lemma leaves_typographies: "concat (map (leaves \<circ> Typography v) ts) = map (Typography v) ts"
  by (induction ts) simp_all

lemma leaves_score_view:
  "leaves (score_view s)
   = [Typography h6 ''Job Relevance Analysis'',
      Typography h4 (toFixed 1 (score_number s) @ ''%''),
      Typography subtitle1 ''Relevance Score'']
     @ (if matched_keywords s = [] then []
        else [Typography body1 (''Matched Keywords: '' @ join '', '' (matched_keywords s))])"
  by (simp add: score_view_def keywords_view_def)

lemma leaves_result_view:
  "concat (map leaves (result_view r))
   = [Typography h6 ''Your Answer'', Typography body1 (transcription r)]
     @ leaves (analysis_view (analysis r))
     @ (case score r of None \<Rightarrow> [] | Some s \<Rightarrow> leaves (score_view s))
     @ Typography h6 ''Feedback & Suggestions'' # map (Typography body1) (feedback r)"
  by (simp add: result_view_def leaves_typographies split: option.splits)

lemma leaves_render:
  "leaves (render w)
   = concat (map leaves (controls_view w))
     @ (if loading w then [CircularProgress, Typography unset ''Processing your response...'']
        else [])
     @ (case result w of None \<Rightarrow> [] | Some r \<Rightarrow> concat (map leaves (result_view r)))"
  by (simp add: render_def loading_view_def split: option.splits)

lemma digits_small: "n < 10 \<Longrightarrow> digits n = [digit_char n]"
  by (simp add: digits.simps)

lemma digits_large: "10 \<le> n \<Longrightarrow> digits n = digits (n div 10) @ [digit_char (n mod 10)]"
  by (subst digits.simps) simp

lemma digits_nonempty: "digits n \<noteq> []"
  by (subst digits.simps) simp

lemma pad_digits:
  "(if length (digits n) \<le> 1 then replicate (1 + 1 - length (digits n)) (CHR ''0'') @ digits n
    else digits n)
   = digits (n div 10) @ [digit_char (n mod 10)]"
proof (cases "n < 10")
  case True
  then have "digits n = [digit_char n]" "digits (n div 10) = ''0''"
    by (simp_all add: digits_small digit_char_def)
  with True show ?thesis by simp
next
  case False
  then have d: "digits n = digits (n div 10) @ [digit_char (n mod 10)]"
    by (simp add: digits_large)
  have "length (digits (n div 10)) \<noteq> 0" by (simp add: digits_nonempty)
  then have "\<not> length (digits n) \<le> 1" using d by simp
  then show ?thesis using d by simp
qed

lemma toFixed_one:
  assumes "\<bar>x\<bar> < 10 ^ 21"
  shows "toFixed 1 (Finite x)
   = (if x < 0 then ''-'' else [])
     @ digits (nat \<lfloor>\<bar>x\<bar> * 10 + 1 / 2\<rfloor> div 10)
     @ ''.''
     @ [digit_char (nat \<lfloor>\<bar>x\<bar> * 10 + 1 / 2\<rfloor> mod 10)]"
  unfolding toFixed.simps Let_def pad_digits
  using assms by (simp add: abs_if)

lemma toFixed_example:
  "toFixed 1 (Finite (5802325169913463 / 70368744177664)) = ''82.5''"
proof -
  have tenths: "\<lfloor>\<bar>5802325169913463 / 70368744177664 :: rat\<bar> * 10 + 1 / 2\<rfloor> = 825"
    by (simp add: floor_eq_iff)
  have small: "\<bar>5802325169913463 / 70368744177664 :: rat\<bar> < 10 ^ 21"
    by simp
  show ?thesis
    unfolding toFixed_one [OF small] tenths
    by (simp add: digits.simps digit_char_def)
qed

text \<open>The text of \<open>10^21\<close>: one digit and the exponent.\<close>

lemma floor_log10_huge: "floor_log 10 1000000000000000000000 = 21"
  by (simp add: floor_log_def digit_count.simps)

lemma round_double_huge:
  "round_double 1000000000000000000000 = Some 1000000000000000000000"
  "round_double 2000000000000000000000 = Some 2000000000000000000000"
  "round_double 10000000000000000000000 = Some 10000000000000000000000"
  by (simp_all add: round_double_def floor_log_def digit_count.simps scale_def
                    round_half_even_def Let_def)

lemma floor_tenth: "\<lfloor>(1::rat) / 10\<rfloor> = 0"
  by (simp add: floor_eq_iff)

lemma candidates_huge: "candidates 1000000000000000000000 (Suc 0) = [(22, 1)]"
  by (simp add: candidates_def floor_log10_huge decimal_value_def scale_def
                round_double_huge floor_tenth Let_def)

lemma shortest_huge: "shortest 1000000000000000000000 = (22, 1, 1)"
  by (simp add: shortest_def best_def candidates_huge)

lemma toString_huge: "Number_toString (Finite 1000000000000000000000) = ''1e+21''"
  by (simp add: Number_toString.simps positive_toString_def shortest_huge digits.simps
                digit_char_def Let_def)

lemma toFixed_huge: "toFixed 1 (Finite 1000000000000000000000) = ''1e+21''"
  by (simp add: toFixed.simps toString_huge Let_def)

text \<open>
  C7, as stated, fails for a score of \<open>10^21\<close>: the score is shown as
  \<^verbatim>\<open>1e+21%\<close>, with no decimal place.
\<close>

theorem C7_huge_score_in_exponent_notation:
  "result displaying_huge_score = Some (example_result\<lparr> score := Some huge_score \<rparr>)
   \<and> score_number huge_score = Finite 1000000000000000000000
   \<and> leaves (score_view huge_score)
       = [Typography h6 ''Job Relevance Analysis'', Typography h4 ''1e+21%'',
          Typography subtitle1 ''Relevance Score'']
   \<and> Typography h4 ''1e+21%'' \<in> set (leaves (render displaying_huge_score))"
proof -
  have a: "result displaying_huge_score = Some (example_result\<lparr> score := Some huge_score \<rparr>)"
    by (simp add: displaying_huge_score_def)
  have b: "score_number huge_score = Finite 1000000000000000000000"
    by (simp add: huge_score_def)
  have c: "matched_keywords huge_score = []"
    by (simp add: huge_score_def)
  have d: "leaves (score_view huge_score)
       = [Typography h6 ''Job Relevance Analysis'', Typography h4 ''1e+21%'',
          Typography subtitle1 ''Relevance Score'']"
    unfolding leaves_score_view b c toFixed_huge by simp
  have e: "Typography h4 ''1e+21%'' \<in> set (leaves (render displaying_huge_score))"
    unfolding leaves_render a option.case leaves_result_view
    by (simp add: d)
  show ?thesis
    by (intro conjI a b d e)
qed

text \<open>
  C7, amended. When the result on display has a score, the score section shows the text
  of \<^verbatim>\<open>toFixed(1)\<close> for the score, followed by a percent sign, and after it the line
  of the matched keywords, joined by a comma and a space, exactly when there is a keyword.
  When the score is finite and below \<open>10^21\<close> in magnitude, that text has one digit
  after the decimal point: the digits are those of the nearest tenth.
\<close>

theorem C7_score_section:
  assumes "result w = Some r" and "score r = Some s"
  shows "leaves (score_view s)
         = [Typography h6 ''Job Relevance Analysis'',
            Typography h4 (toFixed 1 (score_number s) @ ''%''),
            Typography subtitle1 ''Relevance Score'']
           @ (if matched_keywords s = [] then []
              else [Typography body1
                      (''Matched Keywords: '' @ join '', '' (matched_keywords s))])
   \<and> set (leaves (score_view s)) \<subseteq> set (leaves (render w))
   \<and> (score_number s = Finite x \<and> \<bar>x\<bar> < 10 ^ 21 \<longrightarrow>
        toFixed 1 (score_number s)
        = (if x < 0 then ''-'' else [])
          @ digits (nat \<lfloor>\<bar>x\<bar> * 10 + 1 / 2\<rfloor> div 10)
          @ ''.''
          @ [digit_char (nat \<lfloor>\<bar>x\<bar> * 10 + 1 / 2\<rfloor> mod 10)])"
proof -
  have "set (leaves (score_view s)) \<subseteq> set (concat (map leaves (result_view r)))"
    using assms(2) by (auto simp: leaves_result_view)
  then have shown: "set (leaves (score_view s)) \<subseteq> set (leaves (render w))"
    using assms(1) by (auto simp: leaves_render)
  have fixed: "score_number s = Finite x \<and> \<bar>x\<bar> < 10 ^ 21 \<longrightarrow>
        toFixed 1 (score_number s)
        = (if x < 0 then ''-'' else [])
          @ digits (nat \<lfloor>\<bar>x\<bar> * 10 + 1 / 2\<rfloor> div 10)
          @ ''.''
          @ [digit_char (nat \<lfloor>\<bar>x\<bar> * 10 + 1 / 2\<rfloor> mod 10)]"
    using toFixed_one [of x] by auto
  show ?thesis
    by (intro conjI leaves_score_view shown fixed)
qed

theorem C7_score_section_witness:
  "result displaying_example = Some example_result
   \<and> score example_result = Some example_score
   \<and> score_number example_score = Finite (5802325169913463 / 70368744177664)
   \<and> \<bar>5802325169913463 / 70368744177664 :: rat\<bar> < 10 ^ 21
   \<and> toFixed 1 (score_number example_score) = ''82.5''
   \<and> leaves (score_view example_score)
       = [Typography h6 ''Job Relevance Analysis'', Typography h4 ''82.5%'',
          Typography subtitle1 ''Relevance Score'',
          Typography body1 ''Matched Keywords: python, api'']
   \<and> Typography h4 ''82.5%'' \<in> set (leaves (render displaying_example))
   \<and> Typography body1 ''Matched Keywords: python, api''
       \<in> set (leaves (render displaying_example))"
proof -
  have a: "result displaying_example = Some example_result"
    by (simp add: displaying_example_def)
  have b: "score example_result = Some example_score"
    by (simp add: example_result_def)
  have c: "score_number example_score = Finite (5802325169913463 / 70368744177664)"
    by (simp add: example_score_def)
  have d: "\<bar>5802325169913463 / 70368744177664 :: rat\<bar> < 10 ^ 21"
    by simp
  have tenths: "\<lfloor>\<bar>5802325169913463 / 70368744177664 :: rat\<bar> * 10 + 1 / 2\<rfloor> = 825"
    by (simp add: floor_eq_iff)
  have e: "matched_keywords example_score = [''python'', ''api'']"
    by (simp add: example_score_def)
  note shown = C7_score_section [OF a b, of "5802325169913463 / 70368744177664"]
  from shown [THEN conjunct2, THEN conjunct2] c d
  have "toFixed 1 (score_number example_score)
        = (if (5802325169913463 / 70368744177664 :: rat) < 0 then ''-'' else [])
          @ digits (nat \<lfloor>\<bar>5802325169913463 / 70368744177664 :: rat\<bar> * 10 + 1 / 2\<rfloor> div 10)
          @ ''.''
          @ [digit_char
               (nat \<lfloor>\<bar>5802325169913463 / 70368744177664 :: rat\<bar> * 10 + 1 / 2\<rfloor> mod 10)]"
    by blast
  then have t: "toFixed 1 (score_number example_score) = ''82.5''"
    unfolding tenths by (simp add: digits.simps digit_char_def)
  have f: "leaves (score_view example_score)
       = [Typography h6 ''Job Relevance Analysis'', Typography h4 ''82.5%'',
          Typography subtitle1 ''Relevance Score'',
          Typography body1 ''Matched Keywords: python, api'']"
    using shown [THEN conjunct1] unfolding t e by simp
  have g: "set (leaves (score_view example_score)) \<subseteq> set (leaves (render displaying_example))"
    using shown [THEN conjunct2, THEN conjunct1] .
  from g have h: "Typography h4 ''82.5%'' \<in> set (leaves (render displaying_example))"
    "Typography body1 ''Matched Keywords: python, api''
       \<in> set (leaves (render displaying_example))"
    unfolding f by simp_all
  show ?thesis
    by (intro conjI a b c d t f h)
qed

lemma run_resubmit:
  "run resubmit init =
     \<lparr> isRecording = False, jobDescription = [], loading = True,
       result = Some example_result,
       mediaRecorderRef = Some 1, chunksRef = [],
       recorders =
         [\<lparr> state = inactive, stream = [ended], stop_queued = False,
             listener_jobDescription = [] \<rparr>,
          \<lparr> state = inactive, stream = [ended], stop_queued = False,
             listener_jobDescription = [] \<rparr>],
       pending_starts = [], in_flight = 1,
       requests = [\<lparr> audio = [], job_description = [] \<rparr>,
                   \<lparr> audio = [], job_description = [] \<rparr>],
       timers = [30000, 30000], now = 0, alerts = [], console = [] \<rparr>"
  by (simp add: run_def resubmit_def init_def handler_defs Let_def)

lemma feasible_resubmit: "feasible resubmit init"
  by (simp add: resubmit_def init_def handler_defs Let_def)

text \<open>
  C4, as stated, fails: while the second upload is in progress, the result of the first is
  still shown, below the progress indicator.
\<close>

theorem C4_result_shown_while_loading:
  "feasible resubmit init
   \<and> loading (run resubmit init)
   \<and> result (run resubmit init) = Some example_result
   \<and> CircularProgress \<in> set (leaves (render (run resubmit init)))
   \<and> Typography body1 ''hello world'' \<in> set (leaves (render (run resubmit init)))
   \<and> Typography body1 ''Good job'' \<in> set (leaves (render (run resubmit init)))"
  by (simp add: feasible_resubmit run_resubmit leaves_render leaves_result_view
                example_result_def)

text \<open>
  C4, amended. While \<open>loading\<close> is true the output shows the progress indicator and
  the processing message, after the controls; the result section follows whenever a result
  is in the state, and only when there is none does the output end with the message.
\<close>

theorem C4_loading_view:
  assumes "loading w"
  shows "leaves (render w)
         = concat (map leaves (controls_view w))
           @ [CircularProgress, Typography unset ''Processing your response...'']
           @ (case result w of None \<Rightarrow> [] | Some r \<Rightarrow> concat (map leaves (result_view r)))
   \<and> CircularProgress \<in> set (leaves (render w))
   \<and> Typography unset ''Processing your response...'' \<in> set (leaves (render w))
   \<and> (case result w of
         None \<Rightarrow> leaves (render w)
                 = concat (map leaves (controls_view w))
                   @ [CircularProgress, Typography unset ''Processing your response...'']
       | Some r \<Rightarrow> Typography body1 (transcription r) \<in> set (leaves (render w)))"
  using assms
  by (simp add: leaves_render leaves_result_view split: option.splits)

theorem C4_loading_view_witness:
  "loading (run resubmit init)
   \<and> CircularProgress \<in> set (leaves (render (run resubmit init)))
   \<and> Typography unset ''Processing your response...''
       \<in> set (leaves (render (run resubmit init)))
   \<and> Typography body1 ''hello world'' \<in> set (leaves (render (run resubmit init)))"
proof -
  have a: "loading (run resubmit init)" by (simp add: run_resubmit)
  have b: "result (run resubmit init) = Some example_result" by (simp add: run_resubmit)
  have c: "transcription example_result = ''hello world''" by (simp add: example_result_def)
  from C4_loading_view [OF a] a show ?thesis
    unfolding b option.case c by blast
qed

subsection \<open>Overlapping sessions\<close>

text \<open>
  Once the ref points past the first recorder while that one records, no event stops it
  or ends its track.
\<close>

lemma stream_dequeue:
  "stream (rs[r := (rs ! r)\<lparr> stop_queued := False \<rparr>] ! i) = stream (rs ! i)"
proof (cases "i = r \<and> r < length rs")
  case True
  then show ?thesis by simp
next
  case False
  then show ?thesis by (cases "i = r") (simp_all add: list_update_beyond)
qed

lemma stopRecording_orphaned:
  "first_recorder_orphaned w \<Longrightarrow> first_recorder_orphaned (stopRecording w)"
  by (auto simp: first_recorder_orphaned_def stopRecording_def Let_def split: option.splits)

lemma fold_timeout_orphaned:
  "first_recorder_orphaned w \<Longrightarrow> first_recorder_orphaned (fold (\<lambda>_. timeout_callback) xs w)"
proof (induction xs arbitrary: w)
  case Nil
  then show ?case by simp
next
  case (Cons x xs)
  from Cons.IH [OF stopRecording_orphaned [OF Cons.prems]]
  show ?case by (simp add: timeout_callback_eq)
qed

lemma step_orphaned:
  assumes "first_recorder_orphaned w"
  shows "first_recorder_orphaned (step e w)"
proof (cases e)
  case ClickButton
  show ?thesis
  proof (cases "isRecording w")
    case True
    with ClickButton assms show ?thesis
      by (simp add: button_onClick_def stopRecording_orphaned)
  next
    case False
    with ClickButton assms show ?thesis
      by (simp add: button_onClick_def startRecording_call_def first_recorder_orphaned_def
               split: option.splits)
  qed
next
  case (EditJobDescription t)
  with assms show ?thesis by (simp add: first_recorder_orphaned_def split: option.splits)
next
  case (MicGranted s)
  with assms show ?thesis
    by (auto simp: first_recorder_orphaned_def startRecording_granted_def Let_def
                   setTimeout_def nth_append split: option.splits list.splits)
next
  case (MicRejected err)
  with assms show ?thesis
    by (simp add: first_recorder_orphaned_def startRecording_rejected_def
             split: option.splits list.splits)
next
  case (DataAvailable r data)
  with assms show ?thesis
    by (simp add: first_recorder_orphaned_def on_dataavailable_def split: option.splits)
next
  case (StopEvent r)
  with assms show ?thesis
    by (simp add: first_recorder_orphaned_def on_stop_def sendAudioToServer_call_def Let_def
                  state_dequeue stream_dequeue split: option.splits)
next
  case (Wait d)
  have "first_recorder_orphaned
          (w\<lparr> timers := filter (\<lambda>x. \<not> x \<le> now w + d) (timers w), now := now w + d \<rparr>)"
    using assms by (simp add: first_recorder_orphaned_def split: option.splits)
  from fold_timeout_orphaned [OF this] Wait show ?thesis
    by (simp add: advance_def Let_def)
next
  case (FetchDone outcome)
  with assms show ?thesis
    by (simp add: first_recorder_orphaned_def sendAudioToServer_resume_def catch_upload_def
             split: option.splits fetch_outcome.splits)
qed

lemma run_orphaned:
  "first_recorder_orphaned w \<Longrightarrow> first_recorder_orphaned (run es w)"
proof (induction es arbitrary: w)
  case Nil
  then show ?case by (simp add: run_def)
next
  case (Cons e es)
  from Cons.IH [OF step_orphaned [OF Cons.prems, of e]] show ?case by (simp add: run_def)
qed

lemma run_double_start:
  "run double_start init =
     \<lparr> isRecording = True, jobDescription = [], loading = False, result = None,
       mediaRecorderRef = Some 1, chunksRef = [],
       recorders =
         [\<lparr> state = recording, stream = [live], stop_queued = False,
             listener_jobDescription = [] \<rparr>,
          \<lparr> state = recording, stream = [live], stop_queued = False,
             listener_jobDescription = [] \<rparr>],
       pending_starts = [], in_flight = 0, requests = [],
       timers = [30000, 30000], now = 0, alerts = [], console = [] \<rparr>"
  by (simp add: run_def double_start_def init_def handler_defs Let_def)

lemma feasible_double_start: "feasible double_start init"
  by (simp add: double_start_def init_def handler_defs Let_def)

lemma double_start_orphans_first_recorder:
  "state (recorders (run es (run double_start init)) ! 0) = recording
   \<and> stream (recorders (run es (run double_start init)) ! 0) = [live]"
proof -
  have "first_recorder_orphaned (run double_start init)"
    by (simp add: run_double_start first_recorder_orphaned_def)
  from run_orphaned [OF this, of es] show ?thesis
    by (simp add: first_recorder_orphaned_def split: option.splits)
qed

lemma run_double_start_stopped:
  "run (double_start @ [ClickButton, StopEvent 1, Wait 30000]) init =
     \<lparr> isRecording = False, jobDescription = [], loading = True, result = None,
       mediaRecorderRef = Some 1, chunksRef = [],
       recorders =
         [\<lparr> state = recording, stream = [live], stop_queued = False,
             listener_jobDescription = [] \<rparr>,
          \<lparr> state = inactive, stream = [ended], stop_queued = False,
             listener_jobDescription = [] \<rparr>],
       pending_starts = [], in_flight = 1,
       requests = [\<lparr> audio = [], job_description = [] \<rparr>],
       timers = [], now = 30000, alerts = [], console = [] \<rparr>"
  by (simp add: run_def double_start_def init_def handler_defs Let_def)

text \<open>
  C8. After a double start two recorders record at once, each on a live track of its own.
  The ref points to the second one only: when it has been stopped and every timeout has
  run, the first recorder still records and still holds its track.
\<close>

theorem C8_two_recorders_after_double_start:
  "feasible double_start init
   \<and> recording_count (run double_start init) = 2
   \<and> held_streams (run double_start init) = 2
   \<and> mediaRecorderRef (run double_start init) = Some 1
   \<and> isRecording (run (double_start @ [ClickButton, StopEvent 1, Wait 30000]) init) = False
   \<and> recording_count (run (double_start @ [ClickButton, StopEvent 1, Wait 30000]) init) = 1
   \<and> held_streams (run (double_start @ [ClickButton, StopEvent 1, Wait 30000]) init) = 1
   \<and> timers (run (double_start @ [ClickButton, StopEvent 1, Wait 30000]) init) = []"
  unfolding run_double_start_stopped run_double_start recording_count_def held_streams_def
  by (simp add: feasible_double_start)

subsection \<open>The timeout\<close>

text \<open>
  What holds of the timeout. When one falls due, the current recorder is stopped if it is
  recording; so a session that is left alone ends at its deadline. When the current
  recorder is not recording, a timeout that falls due changes nothing.
\<close>

lemma fold_timeout_idle:
  "\<not> current_is_recording w \<Longrightarrow> fold (\<lambda>_. timeout_callback) xs w = w"
  by (induction xs) (simp_all add: timeout_callback_def)

lemma advance_idle:
  assumes "\<not> current_is_recording w"
  shows "advance d w
         = w\<lparr> timers := filter (\<lambda>x. \<not> x \<le> now w + d) (timers w), now := now w + d \<rparr>"
proof -
  have "\<not> current_is_recording
          (w\<lparr> timers := filter (\<lambda>x. \<not> x \<le> now w + d) (timers w), now := now w + d \<rparr>)"
    using assms by (simp add: current_is_recording_def split: option.splits)
  then show ?thesis
    by (simp add: advance_def Let_def fold_timeout_idle)
qed

lemma fold_timeout_nonempty:
  "xs \<noteq> [] \<Longrightarrow> fold (\<lambda>_. timeout_callback) xs w = stopRecording w"
proof (induction xs arbitrary: w)
  case Nil
  then show ?case by simp
next
  case (Cons x xs)
  have "fold (\<lambda>_. timeout_callback) (x # xs) w
        = fold (\<lambda>_. timeout_callback) xs (stopRecording w)"
    by (simp add: timeout_callback_eq)
  also have "\<dots> = stopRecording w"
    by (simp add: fold_timeout_idle stopRecording_stops)
  finally show ?case .
qed

lemma advance_due:
  assumes "deadline \<in> set (timers w)" and "deadline \<le> now w + d"
  shows "advance d w
         = stopRecording
             (w\<lparr> timers := filter (\<lambda>x. \<not> x \<le> now w + d) (timers w), now := now w + d \<rparr>)"
proof -
  from assms have "filter (\<lambda>x. x \<le> now w + d) (timers w) \<noteq> []"
    by (auto simp: filter_empty_conv)
  then show ?thesis
    by (simp add: advance_def Let_def fold_timeout_nonempty)
qed

lemma advance_stops:
  assumes "deadline \<in> set (timers w)" and "deadline \<le> now w + d"
  shows "\<not> current_is_recording (advance d w)"
  by (simp add: advance_due [OF assms] stopRecording_stops)

lemma auto_stop_at_deadline:
  assumes "pending_starts w = jd # ps"
  shows "\<not> isRecording (step (Wait 30000) (step (MicGranted s) w))
         \<and> recorders (step (Wait 30000) (step (MicGranted s) w)) ! length (recorders w)
             = \<lparr> state = inactive, stream = map (\<lambda>_. ended) s, stop_queued = True,
                 listener_jobDescription = jd \<rparr>"
proof -
  let ?g = "step (MicGranted s) w"
  have g: "?g = (w\<lparr> pending_starts := ps,
                   recorders := recorders w @
                     [\<lparr> state = recording, stream = s, stop_queued = False,
                        listener_jobDescription = jd \<rparr>],
                   mediaRecorderRef := Some (length (recorders w)),
                   chunksRef := [], isRecording := True,
                   timers := timers w @ [now w + 30000] \<rparr>)"
    using assms
    by (simp add: startRecording_granted_def Let_def setTimeout_def new_MediaRecorder_def
                  recorder_start_def)
  have "now ?g + 30000 \<in> set (timers ?g)" "now ?g + 30000 \<le> now ?g + 30000"
    unfolding g by simp_all
  from advance_due [OF this]
  have "step (Wait 30000) ?g
        = stopRecording
            (?g\<lparr> timers := filter (\<lambda>x. \<not> x \<le> now ?g + 30000) (timers ?g),
                  now := now ?g + 30000 \<rparr>)"
    by simp
  then show ?thesis
    unfolding g
    by (simp add: stopRecording_def Let_def recorder_stop_def stop_tracks_def)
qed

lemma run_stale_timer:
  "run stale_timer init =
     \<lparr> isRecording = True, jobDescription = [], loading = False,
       result = Some example_result,
       mediaRecorderRef = Some 1, chunksRef = [],
       recorders =
         [\<lparr> state = inactive, stream = [ended], stop_queued = False,
             listener_jobDescription = [] \<rparr>,
          \<lparr> state = recording, stream = [live], stop_queued = False,
             listener_jobDescription = [] \<rparr>],
       pending_starts = [], in_flight = 0,
       requests = [\<lparr> audio = [], job_description = [] \<rparr>],
       timers = [30000, 45000], now = 15000, alerts = [], console = [] \<rparr>"
  by (simp add: run_def stale_timer_def init_def handler_defs Let_def)

lemma feasible_stale_timer: "feasible (stale_timer @ [Wait 15000]) init"
  by (simp add: stale_timer_def init_def handler_defs Let_def)

lemma run_stale_timer_before:
  "run (stale_timer @ [Wait 14999]) init =
     \<lparr> isRecording = True, jobDescription = [], loading = False,
       result = Some example_result,
       mediaRecorderRef = Some 1, chunksRef = [],
       recorders =
         [\<lparr> state = inactive, stream = [ended], stop_queued = False,
             listener_jobDescription = [] \<rparr>,
          \<lparr> state = recording, stream = [live], stop_queued = False,
             listener_jobDescription = [] \<rparr>],
       pending_starts = [], in_flight = 0,
       requests = [\<lparr> audio = [], job_description = [] \<rparr>],
       timers = [30000, 45000], now = 29999, alerts = [], console = [] \<rparr>"
  by (simp add: run_def stale_timer_def init_def handler_defs Let_def)

lemma run_stale_timer_fired:
  "run (stale_timer @ [Wait 15000]) init =
     \<lparr> isRecording = False, jobDescription = [], loading = False,
       result = Some example_result,
       mediaRecorderRef = Some 1, chunksRef = [],
       recorders =
         [\<lparr> state = inactive, stream = [ended], stop_queued = False,
             listener_jobDescription = [] \<rparr>,
          \<lparr> state = inactive, stream = [ended], stop_queued = True,
             listener_jobDescription = [] \<rparr>],
       pending_starts = [], in_flight = 0,
       requests = [\<lparr> audio = [], job_description = [] \<rparr>],
       timers = [45000], now = 30000, alerts = [], console = [] \<rparr>"
  by (simp add: run_def stale_timer_def init_def handler_defs Let_def)

text \<open>
  C3. The timeout of a session that was stopped by hand is not cancelled: it stops the
  recording that is current when it runs. Here the second recording, started at 15 s, is
  still running at 29.999 s and is stopped at 30 s, the deadline of the first, while its
  own timeout (45 s) is still armed.
\<close>

theorem C3_stale_timer_stops_next_session:
  "feasible (stale_timer @ [Wait 15000]) init
   \<and> now (run stale_timer init) = 15000
   \<and> timers (run stale_timer init) = [30000, 45000]
   \<and> isRecording (run stale_timer init) = True
   \<and> state (recorders (run stale_timer init) ! 1) = recording
   \<and> isRecording (run (stale_timer @ [Wait 14999]) init) = True
   \<and> now (run (stale_timer @ [Wait 15000]) init) = 30000
   \<and> timers (run (stale_timer @ [Wait 15000]) init) = [45000]
   \<and> isRecording (run (stale_timer @ [Wait 15000]) init) = False
   \<and> state (recorders (run (stale_timer @ [Wait 15000]) init) ! 1) = inactive
   \<and> stream (recorders (run (stale_timer @ [Wait 15000]) init) ! 1) = [ended]"
  unfolding run_stale_timer_fired run_stale_timer_before run_stale_timer
  by (simp add: feasible_stale_timer)

end
